theory Spec2Isabelle
  imports Main "HOL-Library.Log_Nat" "HOL-Library.Sublist"
begin

section \<open>JavaScript numbers\<close>

text \<open>
  Every amount, timestamp and parsed index of the program is a JavaScript Number, an
  IEEE 754 binary64 value. A finite Number is modelled by the rational it denotes, next
  to the three special values; the two zeros are identified (they are equal under
  \<^verbatim>\<open>===\<close> and behave alike in every comparison the program makes).
\<close>

datatype jsnum = NaN | PosInf | NegInf | Fin rat

definition pow2 :: "int \<Rightarrow> rat" where
  "pow2 e = (if 0 \<le> e then 2 ^ nat e else 1 / 2 ^ nat (- e))"

text \<open>\<open>floor_log2 q\<close> is the binary exponent of a positive rational: the \<open>e\<close> with
  \<open>2\<^sup>e \<le> q < 2\<^sup>e\<^sup>+\<^sup>1\<close>.\<close>

definition floor_log2 :: "rat \<Rightarrow> int" where
  "floor_log2 q = (let (a, b) = quotient_of q; e = bitlen a - bitlen b
                   in if pow2 e \<le> q then e else e - 1)"

definition round_half_even :: "rat \<Rightarrow> int" where
  "round_half_even x = (let f = \<lfloor>x\<rfloor>; d = x - of_int f
     in if d < 1 / 2 then f else if 1 / 2 < d then f + 1 else if even f then f else f + 1)"

text \<open>
  Rounding of an exact result to binary64, round-to-nearest, ties-to-even: the value is
  scaled by the unit in the last place of its binade (53 significant bits, the exponent
  no smaller than that of the subnormals), rounded to an integer and scaled back; a
  rounded magnitude of \<open>2\<^sup>1\<^sup>0\<^sup>2\<^sup>4\<close> or more overflows to an infinity.
\<close>

definition round64 :: "rat \<Rightarrow> jsnum" where
  "round64 q = (if q = 0 then Fin 0 else
     let e = max (floor_log2 \<bar>q\<bar>) (- 1022);
         u = pow2 (e - 52);
         m = round_half_even (q / u)
     in if 1023 < e \<or> (e = 1023 \<and> \<bar>m\<bar> = 2 ^ 53)
        then (if 0 < q then PosInf else NegInf)
        else Fin (of_int m * u))"

text \<open>A decimal literal of the source text, such as \<^verbatim>\<open>0.1\<close>, denotes the nearest Number.\<close>

definition literal :: "rat \<Rightarrow> jsnum" where
  "literal q = round64 q"

fun js_add :: "jsnum \<Rightarrow> jsnum \<Rightarrow> jsnum" where
  "js_add (Fin a) (Fin b) = round64 (a + b)"
| "js_add NaN _ = NaN"
| "js_add _ NaN = NaN"
| "js_add PosInf NegInf = NaN"
| "js_add NegInf PosInf = NaN"
| "js_add PosInf _ = PosInf"
| "js_add _ PosInf = PosInf"
| "js_add NegInf _ = NegInf"
| "js_add _ NegInf = NegInf"

fun js_neg :: "jsnum \<Rightarrow> jsnum" where
  "js_neg NaN = NaN"
| "js_neg PosInf = NegInf"
| "js_neg NegInf = PosInf"
| "js_neg (Fin a) = Fin (- a)"

definition js_sub :: "jsnum \<Rightarrow> jsnum \<Rightarrow> jsnum" where
  "js_sub x y = js_add x (js_neg y)"

text \<open>The relational operators: every comparison with \<open>NaN\<close> is false.\<close>

fun js_lt :: "jsnum \<Rightarrow> jsnum \<Rightarrow> bool" where
  "js_lt NaN _ = False"
| "js_lt _ NaN = False"
| "js_lt (Fin a) (Fin b) = (a < b)"
| "js_lt _ NegInf = False"
| "js_lt NegInf _ = True"
| "js_lt PosInf _ = False"
| "js_lt _ PosInf = True"

definition js_le :: "jsnum \<Rightarrow> jsnum \<Rightarrow> bool" where
  "js_le x y = (x \<noteq> NaN \<and> y \<noteq> NaN \<and> (x = y \<or> js_lt x y))"

definition isNaN :: "jsnum \<Rightarrow> bool" where
  "isNaN x = (x = NaN)"

text \<open>A Number is falsy, for \<^verbatim>\<open>||\<close>, when it is zero or \<open>NaN\<close>.\<close>

definition falsy :: "jsnum \<Rightarrow> bool" where
  "falsy x = (x = NaN \<or> x = Fin 0)"

section \<open>Arrays and strings\<close>

text \<open>
  \<open>relative_index start len\<close> is the position at which \<^verbatim>\<open>slice(start)\<close> and
  \<^verbatim>\<open>splice(start, ...)\<close> begin in an array of length \<open>len\<close>: the argument is converted
  to an integer (\<open>NaN\<close> to 0, a fraction truncated towards zero), a negative one counts
  from the end, and the result is clamped to the array.
\<close>

definition trunc_int :: "rat \<Rightarrow> int" where
  "trunc_int q = (if 0 \<le> q then \<lfloor>q\<rfloor> else \<lceil>q\<rceil>)"

fun relative_index :: "jsnum \<Rightarrow> nat \<Rightarrow> nat" where
  "relative_index NaN len = 0"
| "relative_index NegInf len = 0"
| "relative_index PosInf len = len"
| "relative_index (Fin q) len =
     (let r = trunc_int q
      in if r < 0 then nat (max (int len + r) 0) else nat (min r (int len)))"

definition slice :: "jsnum \<Rightarrow> 'a list \<Rightarrow> 'a list" where
  "slice start xs = drop (relative_index start (length xs)) xs"

text \<open>\<^verbatim>\<open>xs.splice(start, 1)\<close> removes at most one element in place: the pair is the array
  of removed elements (the call's value) and the array that remains.\<close>

definition splice :: "jsnum \<Rightarrow> 'a list \<Rightarrow> 'a list \<times> 'a list" where
  "splice start xs =
     (let k = relative_index start (length xs)
      in (take 1 (drop k xs), take k xs @ drop (Suc k) xs))"

text \<open>\<^verbatim>\<open>findIndex\<close>: the index of the first element satisfying the predicate, or \<open>-1\<close>.\<close>

fun findIndex :: "('a \<Rightarrow> bool) \<Rightarrow> 'a list \<Rightarrow> int" where
  "findIndex p [] = - 1"
| "findIndex p (x # xs) =
     (if p x then 0 else (let i = findIndex p xs in if i = - 1 then - 1 else i + 1))"

text \<open>
  The text a user enters (a description, a search term) is a JavaScript string: a
  sequence of UTF-16 code units, here natural numbers. The strings the program fixes
  itself (property names, type tags, ids) are written with the characters of \<open>string\<close>;
  \<open>utf16\<close> gives the code units of such a string.
\<close>

type_synonym jsstring = "nat list"

definition utf16 :: "string \<Rightarrow> jsstring" where
  "utf16 s = map of_char s"














text \<open>
  \<^verbatim>\<open>trim\<close> removes the white space and the line terminators at both ends: the tab, the
  line feed, the vertical tab, the form feed, the carriage return, the space, the
  no-break space, the Ogham space mark, the spaces from U+2000 to U+200A, the line and
  paragraph separators, the narrow no-break space, the medium mathematical space, the
  ideographic space and the byte order mark.
\<close>

definition is_space :: "nat \<Rightarrow> bool" where
  "is_space u =
     (u \<in> set [0x0009, 0x000A, 0x000B, 0x000C, 0x000D, 0x0020, 0x00A0, 0x1680,
                0x2028, 0x2029, 0x202F, 0x205F, 0x3000, 0xFEFF]
      \<or> (0x2000 \<le> u \<and> u \<le> 0x200A))"

definition trim :: "jsstring \<Rightarrow> jsstring" where
  "trim s = rev (dropWhile is_space (rev (dropWhile is_space s)))"

fun join :: "'a list \<Rightarrow> 'a list list \<Rightarrow> 'a list" where
  "join sep [] = []"
| "join sep [x] = x"
| "join sep (x # y # ys) = x @ sep @ join sep (y # ys)"

text \<open>The decimal rendering of a non-negative integer, as \<^verbatim>\<open>toString()\<close> gives it for
  every integer below \<open>10\<^sup>2\<^sup>1\<close>.\<close>

definition digit :: "nat \<Rightarrow> char" where
  "digit d = ''0123456789'' ! d"

fun toString :: "nat \<Rightarrow> string" where
  "toString n = (if n < 10 then [digit n] else toString (n div 10) @ [digit (n mod 10)])"

declare toString.simps [simp del]

section \<open>The command-line ledger (cli.js)\<close>

text \<open>
  The file \<^verbatim>\<open>transactions.json\<close> holds the array of transactions; its content is the
  state, read by \<^verbatim>\<open>loadTransactions\<close> and rewritten by \<^verbatim>\<open>saveTransactions\<close>. A
  transaction is the object \<^verbatim>\<open>addTransaction\<close> builds. The state of the model is the
  array handed to \<^verbatim>\<open>saveTransactions\<close>; the file holds its finite Numbers as they are.
\<close>

record transaction =
  primeId :: jsnum
  description :: jsstring
  amount :: jsnum
  type :: string

definition calculateBalance :: "transaction list \<Rightarrow> jsnum" where
  "calculateBalance transactions =
     foldl (\<lambda>balance transaction.
              if type transaction = ''income'' then js_add balance (amount transaction)
              else js_sub balance (amount transaction))
       (Fin 0) transactions"

text \<open>
  The totals of \<^verbatim>\<open>viewBalance\<close> are computed by one expression, written out for
  \<^verbatim>\<open>'income'\<close> and for \<^verbatim>\<open>'expense'\<close>:
  \<^verbatim>\<open>transactions.filter(t => t.type === ty).reduce((sum, t) => sum + t.amount, 0)\<close>.
\<close>

definition total :: "string \<Rightarrow> transaction list \<Rightarrow> jsnum" where
  "total ty transactions =
     foldl (\<lambda>sum t. js_add sum (amount t)) (Fin 0) (filter (\<lambda>t. type t = ty) transactions)"

text \<open>\<^verbatim>\<open>viewBalance\<close> prints the balance, the income and the expenses, in this order.\<close>

definition viewBalance :: "transaction list \<Rightarrow> jsnum \<times> jsnum \<times> jsnum" where
  "viewBalance transactions =
     (calculateBalance transactions, total ''income'' transactions,
      total ''expense'' transactions)"

datatype add_output = Invalid_amount | Added_successfully

text \<open>
  \<^verbatim>\<open>addTransaction(type)\<close> with the two answers of the user. \<open>amount\<close> is the value of
  \<^verbatim>\<open>parseFloat(amountStr)\<close> and \<open>now\<close> the value of \<^verbatim>\<open>Date.now()\<close>.
\<close>

definition addTransaction ::
  "string \<Rightarrow> jsstring \<Rightarrow> jsnum \<Rightarrow> nat \<Rightarrow> transaction list \<Rightarrow> transaction list \<times> add_output" where
  "addTransaction ty descr amnt now file =
     (if isNaN amnt \<or> js_le amnt (Fin 0) then (file, Invalid_amount)
      else (file @ [\<lparr>primeId = Fin (of_nat now), description = trim descr,
                      amount = amnt, type = ty\<rparr>],
            Added_successfully))"




datatype delete_output =
  Cancelled | Invalid_transaction_ID | Deleted transaction | TypeError

text \<open>
  \<^verbatim>\<open>deleteTransaction\<close> with the answer of the user; \<open>idn\<close> is the value of
  \<^verbatim>\<open>parseInt(idStr)\<close>. When \<^verbatim>\<open>splice\<close> removes nothing, \<^verbatim>\<open>deleted\<close> is undefined and
  reading its description throws, after the file has been saved.
\<close>

definition deleteTransaction ::
  "jsnum \<Rightarrow> transaction list \<Rightarrow> transaction list \<times> delete_output" where
  "deleteTransaction idn file =
     (if idn = Fin 0 then (file, Cancelled)
      else if js_lt idn (Fin 1) \<or> js_lt (Fin (of_nat (length file))) idn
      then (file, Invalid_transaction_ID)
      else (case splice (js_sub idn (Fin 1)) file of
              ([], rest) \<Rightarrow> (rest, TypeError)
            | (deleted # _, rest) \<Rightarrow> (rest, Deleted deleted)))"

text \<open>
  \<^verbatim>\<open>exportToCSV\<close>: the text written to the file, or nothing when there is no
  transaction. The rendering of a date by \<^verbatim>\<open>toLocaleDateString\<close> depends on the locale
  and the rendering of a Number in a template on the Number; both are parameters.
\<close>

definition csv_row ::
  "(jsnum \<Rightarrow> jsstring) \<Rightarrow> (jsnum \<Rightarrow> jsstring) \<Rightarrow> transaction \<Rightarrow> jsstring" where
  "csv_row toLocaleDateString numberToString t =
     toLocaleDateString (primeId t) @ utf16 [CHR '','', CHR 0x22] @ description t
       @ utf16 [CHR 0x22, CHR '',''] @ numberToString (amount t) @ utf16 '','' @ utf16 (type t)"

definition exportToCSV ::
  "(jsnum \<Rightarrow> jsstring) \<Rightarrow> (jsnum \<Rightarrow> jsstring) \<Rightarrow> transaction list \<Rightarrow> jsstring option" where
  "exportToCSV toLocaleDateString numberToString transactions =
     (if length transactions = 0 then None
      else Some (utf16 ''Date,Description,Amount,Type'' @ utf16 [CHR 0x0A]
                   @ join (utf16 [CHR 0x0A])
                       (map (csv_row toLocaleDateString numberToString) transactions)))"

section \<open>The HTTP service (server.js)\<close>

text \<open>
  The service keeps the array \<^verbatim>\<open>transactions\<close> in memory. Its elements are the parsed
  JSON bodies of the requests, stored as they come: an object is a finite map from
  property names to JSON values (the order of the properties, which only the rendering
  of a response shows, is not modelled), and a property that is missing reads as
  undefined, here \<open>None\<close>.
\<close>

datatype jsval = JNull | JBool bool | JNum jsnum | JStr string
  | JArr "jsval list" | JObj "string \<Rightarrow> jsval option"

type_synonym jsobj = "string \<Rightarrow> jsval option"

record response =
  status :: nat
  body :: "jsval option"

definition not_found :: response where
  "not_found = \<lparr>status = 404, body = Some (JObj [''error'' \<mapsto> JStr ''Transaction not found''])\<rparr>"

text \<open>\<^verbatim>\<open>POST /api/transactions\<close>; \<open>now\<close> is the value of \<^verbatim>\<open>Date.now()\<close>.\<close>

definition post_transaction :: "nat \<Rightarrow> jsobj \<Rightarrow> jsobj list \<Rightarrow> jsobj list \<times> response" where
  "post_transaction now req_body transactions =
     (let transaction = req_body(''id'' \<mapsto> JStr (toString now))
      in (transactions @ [transaction], \<lparr>status = 201, body = Some (JObj transaction)\<rparr>))"

text \<open>\<^verbatim>\<open>PUT /api/transactions/:id\<close>; the spread \<^verbatim>\<open>{ ...old, ...updated }\<close> is the map
  \<open>old ++ updated\<close>.\<close>

definition put_transaction :: "string \<Rightarrow> jsobj \<Rightarrow> jsobj list \<Rightarrow> jsobj list \<times> response" where
  "put_transaction idp updatedTransaction transactions =
     (let index = findIndex (\<lambda>t. t ''id'' = Some (JStr idp)) transactions
      in if index \<noteq> - 1
         then (let merged = (transactions ! nat index) ++ updatedTransaction
               in (transactions[nat index := merged],
                   \<lparr>status = 200, body = Some (JObj merged)\<rparr>))
         else (transactions, not_found))"

text \<open>\<^verbatim>\<open>DELETE /api/transactions/:id\<close>; the answer to a deletion is \<^verbatim>\<open>204\<close> with an
  empty body.\<close>

definition delete_transaction :: "string \<Rightarrow> jsobj list \<Rightarrow> jsobj list \<times> response" where
  "delete_transaction idp transactions =
     (let index = findIndex (\<lambda>t. t ''id'' = Some (JStr idp)) transactions
      in if index \<noteq> - 1
         then (snd (splice (Fin (of_int index)) transactions), \<lparr>status = 204, body = None\<rparr>)
         else (transactions, not_found))"

text \<open>\<^verbatim>\<open>GET /api/transactions/recent\<close>: the array sent back; \<open>parsed\<close> is the value of
  \<^verbatim>\<open>parseInt(req.query.limit)\<close>, which is \<open>NaN\<close> when the parameter is missing or does
  not start with a number.\<close>

definition recent :: "jsnum \<Rightarrow> jsobj list \<Rightarrow> jsobj list" where
  "recent parsed transactions =
     (let limit = (if falsy parsed then Fin 10 else parsed)
      in slice (js_neg limit) transactions)"

text \<open>
  The balance and summary routes add and subtract \<^verbatim>\<open>t.amount\<close>. The operand is the amount when
  it is a Number, \<open>NaN\<close> when it is missing, 0 for \<^verbatim>\<open>null\<close> and 0 or 1 for a boolean.
  With a string, an array or an object the addition concatenates strings and the
  subtraction parses them; neither is modelled, and the result for such a store is
  \<open>None\<close>.
\<close>

fun numeric_operand :: "jsval option \<Rightarrow> jsnum option" where
  "numeric_operand None = Some NaN"
| "numeric_operand (Some (JNum a)) = Some a"
| "numeric_operand (Some JNull) = Some (Fin 0)"
| "numeric_operand (Some (JBool b)) = Some (Fin (if b then 1 else 0))"
| "numeric_operand (Some _) = None"

text \<open>\<^verbatim>\<open>reduce((sum, t) => sum + t.amount, 0)\<close>.\<close>

definition sum_amounts :: "jsobj list \<Rightarrow> jsnum option" where
  "sum_amounts ts =
     foldl (\<lambda>sum t. case (sum, numeric_operand (t ''amount'')) of
                       (Some s, Some a) \<Rightarrow> Some (js_add s a)
                     | _ \<Rightarrow> None)
       (Some (Fin 0)) ts"

text \<open>\<^verbatim>\<open>GET /api/summary\<close>: the object sent back.\<close>

record summary =
  totalIncome :: jsnum
  totalExpense :: jsnum
  balance :: jsnum
  transactionCount :: nat
  currency :: string

definition get_summary :: "jsobj list \<Rightarrow> summary option" where
  "get_summary transactions =
     (case (sum_amounts (filter (\<lambda>t. t ''type'' = Some (JStr ''income'')) transactions),
            sum_amounts (filter (\<lambda>t. t ''type'' = Some (JStr ''expense'')) transactions)) of
        (Some income, Some expense) \<Rightarrow>
          Some \<lparr>totalIncome = income, totalExpense = expense,
                balance = js_sub income expense,
                transactionCount = length transactions, currency = ''USD''\<rparr>
      | _ \<Rightarrow> None)"

text \<open>\<^verbatim>\<open>GET /api/balance\<close>: the balance sent back.\<close>

definition get_balance :: "jsobj list \<Rightarrow> jsnum option" where
  "get_balance transactions =
     foldl (\<lambda>balance t. case (balance, numeric_operand (t ''amount'')) of
                           (Some b, Some a) \<Rightarrow>
                             Some (if t ''type'' = Some (JStr ''income'') then js_add b a
                                   else js_sub b a)
                         | _ \<Rightarrow> None)
       (Some (Fin 0)) transactions"

text \<open>The requests that change the store, and the store after a sequence of them, each
  handled to its end before the next.\<close>

datatype request = POST nat jsobj | PUT string jsobj | DELETE string

fun handle :: "request \<Rightarrow> jsobj list \<Rightarrow> jsobj list" where
  "handle (POST now req_body) transactions = fst (post_transaction now req_body transactions)"
| "handle (PUT idp req_body) transactions = fst (put_transaction idp req_body transactions)"
| "handle (DELETE idp) transactions = fst (delete_transaction idp transactions)"

definition serve :: "request list \<Rightarrow> jsobj list \<Rightarrow> jsobj list" where
  "serve requests transactions = fold handle requests transactions"

section \<open>Notions used in the statements\<close>

text \<open>A whole amount is a finite, non-negative Number without a fractional part;
  \<open>units\<close> is its value.\<close>

fun whole :: "jsnum \<Rightarrow> bool" where
  "whole (Fin q) = (0 \<le> q \<and> of_int \<lfloor>q\<rfloor> = q)"
| "whole _ = False"

fun units :: "jsnum \<Rightarrow> int" where
  "units (Fin q) = \<lfloor>q\<rfloor>"
| "units _ = 0"

definition signed_units :: "transaction \<Rightarrow> int" where
  "signed_units t = (if type t = ''income'' then units (amount t) else - units (amount t))"

text \<open>An object of the store whose type is a string and whose amount is a Number, read as
  a transaction of the ledger.\<close>

definition typed :: "jsobj \<Rightarrow> bool" where
  "typed t = ((\<exists>s. t ''type'' = Some (JStr s)) \<and> (\<exists>a. t ''amount'' = Some (JNum a)))"

definition as_transaction :: "jsobj \<Rightarrow> transaction" where
  "as_transaction t =
     \<lparr>primeId = NaN, description = [],
      amount = (case t ''amount'' of Some (JNum a) \<Rightarrow> a | _ \<Rightarrow> NaN),
      type = (case t ''type'' of Some (JStr s) \<Rightarrow> s | _ \<Rightarrow> [])\<rparr>"





text \<open>The clock readings of the creations in a sequence of requests, and the ids they
  issue; a request that carries an id is an update whose body has the property
  \<^verbatim>\<open>id\<close>.\<close>

fun post_times :: "request list \<Rightarrow> nat list" where
  "post_times [] = []"
| "post_times (POST now _ # rs) = now # post_times rs"
| "post_times (_ # rs) = post_times rs"

definition issued_ids :: "request list \<Rightarrow> jsval option list" where
  "issued_ids rs = map (\<lambda>now. Some (JStr (toString now))) (post_times rs)"

fun carries_id :: "request \<Rightarrow> bool" where
  "carries_id (PUT _ req_body) = (req_body ''id'' \<noteq> None)"
| "carries_id _ = False"

text \<open>The ids of the stored transactions, in the order of the store.\<close>

definition ids :: "jsobj list \<Rightarrow> jsval option list" where
  "ids ts = map (\<lambda>t. t ''id'') ts"

section \<open>Example stores\<close>

definition tenths :: "transaction list" where
  "tenths =
     [\<lparr>primeId = Fin 1, description = utf16 ''a'', amount = literal (1 / 10), type = ''income''\<rparr>,
      \<lparr>primeId = Fin 2, description = utf16 ''b'', amount = literal (3 / 10), type = ''expense''\<rparr>,
      \<lparr>primeId = Fin 3, description = utf16 ''c'', amount = literal (2 / 10), type = ''income''\<rparr>]"

definition salary_rent :: "transaction list" where
  "salary_rent =
     [\<lparr>primeId = Fin 1, description = utf16 ''Salary'', amount = Fin 1000, type = ''income''\<rparr>,
      \<lparr>primeId = Fin 2, description = utf16 ''Rent'', amount = Fin 400, type = ''expense''\<rparr>]"

text \<open>Two ledgers for the export: in the first, the description of the only transaction
  holds a double quote and a line break.\<close>

definition one_row :: "(jsnum \<Rightarrow> jsstring) \<Rightarrow> (jsnum \<Rightarrow> jsstring) \<Rightarrow> transaction list" where
  "one_row toLocaleDateString numberToString =
     [\<lparr>primeId = Fin 1,
       description = utf16 ''x'' @ utf16 [CHR 0x22, CHR '',''] @ numberToString (Fin 1)
         @ utf16 '',income'' @ utf16 [CHR 0x0A] @ toLocaleDateString (Fin 2)
         @ utf16 [CHR '','', CHR 0x22] @ utf16 ''y'',
       amount = Fin 2, type = ''expense''\<rparr>]"

definition two_rows :: "transaction list" where
  "two_rows =
     [\<lparr>primeId = Fin 1, description = utf16 ''x'', amount = Fin 1, type = ''income''\<rparr>,
      \<lparr>primeId = Fin 2, description = utf16 ''y'', amount = Fin 2, type = ''expense''\<rparr>]"


text \<open>Two objects of the service's store.\<close>

definition rent :: jsobj where
  "rent = [''id'' \<mapsto> JStr ''1'', ''description'' \<mapsto> JStr ''Rent'',
           ''amount'' \<mapsto> JNum (Fin 400), ''type'' \<mapsto> JStr ''expense'',
           ''createdAt'' \<mapsto> JStr ''2024-01-01'']"

definition salary :: jsobj where
  "salary = [''id'' \<mapsto> JStr ''2'', ''description'' \<mapsto> JStr ''Salary'',
             ''amount'' \<mapsto> JNum (Fin 1000), ''type'' \<mapsto> JStr ''income'',
             ''createdAt'' \<mapsto> JStr ''2024-01-02'']"

section \<open>Rounding, and sums of whole amounts\<close>

text \<open>An integer of magnitude at most \<open>2\<^sup>5\<^sup>3\<close> is a Number, so an addition whose exact
  result is such an integer does not round.\<close>

lemma round_half_even_of_int: "round_half_even (of_int k) = k"
  by (simp add: round_half_even_def)

lemma pow2_pos: "0 < pow2 e"
  by (simp add: pow2_def)

text \<open>\<open>floor_log2\<close> is the binary exponent.\<close>

lemma pow2_powi: "pow2 e = 2 powi e"
  by (simp add: pow2_def power_int_def inverse_eq_divide power_one_over)

lemma pow2_add: "pow2 (x + y) = pow2 x * pow2 y"
  by (simp add: pow2_powi power_int_add)

lemma pow2_nat: "pow2 (int n) = 2 ^ n"
  by (simp add: pow2_def)

lemma floor_log2_bounds:
  assumes "0 < q"
  shows "pow2 (floor_log2 q) \<le> q \<and> q < pow2 (floor_log2 q + 1)"
proof -
  obtain a b where ab: "quotient_of q = (a, b)" by (cases "quotient_of q")
  then have b: "0 < b" and q: "q = of_int a / of_int b"
    using quotient_of_denom_pos quotient_of_div by blast+
  have a: "0 < a" using assms b q by (simp add: zero_less_divide_iff)
  define A B where "A = bitlen a" and "B = bitlen b"
  have A1: "1 \<le> A" using a bitlen_eq_zero_iff [of a] bitlen_nonneg [of a] unfolding A_def by linarith
  have B1: "1 \<le> B" using b bitlen_eq_zero_iff [of b] bitlen_nonneg [of b] unfolding B_def by linarith
  have ia: "2 ^ nat (A - 1) \<le> a" "a < 2 ^ nat A"
    using bitlen_bounds [OF a] unfolding A_def by simp_all
  have ib: "2 ^ nat (B - 1) \<le> b" "b < 2 ^ nat B"
    using bitlen_bounds [OF b] unfolding B_def by simp_all
  have cast: "(of_int (2 ^ n) :: rat) = 2 ^ n" for n by simp
  have ra: "pow2 (A - 1) \<le> of_int a" "of_int a < pow2 A"
    using ia(1) [THEN of_int_le_iff [where 'a = rat, THEN iffD2]]
      ia(2) [THEN of_int_less_iff [where 'a = rat, THEN iffD2]] A1
    by (simp_all only: cast pow2_def) simp_all
  have rb: "pow2 (B - 1) \<le> of_int b" "of_int b < pow2 B"
    using ib(1) [THEN of_int_le_iff [where 'a = rat, THEN iffD2]]
      ib(2) [THEN of_int_less_iff [where 'a = rat, THEN iffD2]] B1
    by (simp_all only: cast pow2_def) simp_all
  have bpos: "(0::rat) < of_int b" using b by simp
  have lo: "pow2 (A - B - 1) \<le> q"
  proof -
    have "pow2 (A - B - 1) * of_int b \<le> pow2 (A - B - 1) * pow2 B"
      using rb(2) pow2_pos [of "A - B - 1"] by (intro mult_left_mono) simp_all
    also have "\<dots> = pow2 (A - 1)" by (simp add: pow2_add [symmetric])
    also have "\<dots> \<le> of_int a" by (rule ra(1))
    finally show ?thesis using bpos unfolding q by (simp add: pos_le_divide_eq)
  qed
  have hi: "q < pow2 (A - B + 1)"
  proof -
    have "of_int a < pow2 A" by (rule ra(2))
    also have "\<dots> = pow2 (A - B + 1) * pow2 (B - 1)" by (simp add: pow2_add [symmetric])
    also have "\<dots> \<le> pow2 (A - B + 1) * of_int b"
      using rb(1) pow2_pos [of "A - B + 1"] by (intro mult_left_mono) simp_all
    finally show ?thesis using bpos unfolding q by (simp add: pos_divide_less_eq)
  qed
  show ?thesis
  proof (cases "pow2 (A - B) \<le> q")
    case True
    then show ?thesis using hi ab by (simp add: floor_log2_def A_def B_def)
  next
    case False
    then show ?thesis using lo ab by (simp add: floor_log2_def A_def B_def)
  qed
qed

lemma floor_log2_of_int:
  assumes "0 < n"
  shows "floor_log2 (of_int n) = bitlen n - 1"
proof -
  have b: "2 ^ nat (bitlen n - 1) \<le> n"
    using bitlen_bounds [OF assms] by simp
  have ge: "1 \<le> bitlen n"
    using assms bitlen_eq_zero_iff [of n] bitlen_nonneg [of n] by linarith
  have "(2::rat) ^ nat (bitlen n - 1) = of_int (2 ^ nat (bitlen n - 1))"
    by simp
  also have "\<dots> \<le> of_int n"
    using b by (simp only: of_int_le_iff)
  finally have "pow2 (bitlen n - 1) \<le> of_int n"
    using ge by (simp add: pow2_def)
  moreover have "bitlen 1 = 1"
    by (simp add: bitlen_alt_def)
  ultimately show ?thesis
    by (simp add: floor_log2_def)
qed

lemma bitlen_le_54:
  assumes "0 < n" "n \<le> 2 ^ 53"
  shows "bitlen n \<le> 54"
proof (rule ccontr)
  assume "\<not> bitlen n \<le> 54"
  then have "54 \<le> nat (bitlen n - 1)" by simp
  then have "(2::int) ^ 54 \<le> 2 ^ nat (bitlen n - 1)"
    by (rule power_increasing) simp
  also have "\<dots> \<le> n" using bitlen_bounds [OF assms(1)] by simp
  finally show False using assms(2) by simp
qed

lemma round64_of_int:
  assumes "\<bar>n\<bar> \<le> 2 ^ 53"
  shows "round64 (of_int n) = Fin (of_int n)"
proof (cases "n = 0")
  case True
  then show ?thesis by (simp add: round64_def)
next
  case False
  then have pos: "0 < \<bar>n\<bar>" by simp
  define e where "e = bitlen \<bar>n\<bar> - 1"
  have ge: "0 \<le> e"
    using pos bitlen_eq_zero_iff [of "\<bar>n\<bar>"] bitlen_nonneg [of "\<bar>n\<bar>"]
    unfolding e_def by linarith
  have le: "e \<le> 53" using bitlen_le_54 [OF pos assms] unfolding e_def by simp
  have "floor_log2 (of_int \<bar>n\<bar>) = e"
    using floor_log2_of_int [OF pos] unfolding e_def .
  then have fl: "floor_log2 \<bar>of_int n\<bar> = e" by simp
  have lo: "2 ^ nat e \<le> \<bar>n\<bar>" using bitlen_bounds [OF pos] unfolding e_def by simp
  have "\<exists>k. (of_int n :: rat) / pow2 (e - 52) = of_int k"
  proof (cases "e \<le> 52")
    case True
    then have "(of_int n :: rat) / pow2 (e - 52) = of_int (n * 2 ^ nat (52 - e))"
      by (cases "e = 52") (simp_all add: pow2_def)
    then show ?thesis by blast
  next
    case False
    with le have e53: "e = 53" by simp
    with lo assms have "\<bar>n\<bar> = 2 ^ 53" by simp
    then have "n = 2 ^ 53 \<or> n = - (2 ^ 53)" by linarith
    then have "n = 2 * (n div 2)" by auto
    then have "(of_int n :: rat) = 2 * of_int (n div 2)"
      by (metis of_int_mult of_int_numeral)
    then have "(of_int n :: rat) / pow2 (e - 52) = of_int (n div 2)"
      using e53 by (simp add: pow2_def)
    then show ?thesis by blast
  qed
  then obtain k where k: "(of_int n :: rat) / pow2 (e - 52) = of_int k" by blast
  have "of_int k * pow2 (e - 52) = (of_int n :: rat)"
    using k pow2_pos [of "e - 52"] by (simp add: field_simps)
  then show ?thesis
    using False ge le fl k
    by (simp add: round64_def Let_def round_half_even_of_int max_def)
qed

lemma foldl_js_add_exact:
  "\<bar>a\<bar> + sum_list (map abs ns) \<le> 2 ^ 53 \<Longrightarrow>
   foldl js_add (Fin (of_int a)) (map (\<lambda>n. Fin (of_int n)) ns) = Fin (of_int (a + sum_list ns))"
proof (induction ns arbitrary: a)
  case Nil
  then show ?case by simp
next
  case (Cons n ns)
  have nn: "0 \<le> sum_list (map abs ns)"
    by (rule sum_list_nonneg) auto
  have "\<bar>a + n\<bar> \<le> 2 ^ 53" using Cons.prems nn by simp
  then have step: "round64 (of_int a + of_int n) = Fin (of_int a + of_int n)"
    using round64_of_int [of "a + n"] by simp
  have "\<bar>a + n\<bar> + sum_list (map abs ns) \<le> 2 ^ 53" using Cons.prems by simp
  from Cons.IH [OF this] show ?case by (simp add: step add.assoc)
qed

lemma whole_Fin: "whole x \<Longrightarrow> x = Fin (of_int (units x))"
  by (cases x) auto

lemma whole_units_nonneg: "whole x \<Longrightarrow> 0 \<le> units x"
  by (cases x) auto

lemma whole_neg: "whole x \<Longrightarrow> js_neg x = Fin (of_int (- units x))"
  by (cases x) auto

lemma calculateBalance_exact:
  assumes w: "\<forall>t\<in>set ts. whole (amount t)"
      and b: "sum_list (map (\<lambda>t. units (amount t)) ts) \<le> 2 ^ 53"
  shows "calculateBalance ts = Fin (of_int (sum_list (map signed_units ts)))"
proof -
  have m: "map (\<lambda>t. if type t = ''income'' then amount t else js_neg (amount t)) ts
         = map (\<lambda>n. Fin (of_int n)) (map signed_units ts)"
    using w by (auto simp: signed_units_def whole_neg simp del: of_int_minus dest: whole_Fin)
  have a: "map abs (map signed_units ts) = map (\<lambda>t. units (amount t)) ts"
    using w by (auto simp: signed_units_def whole_units_nonneg)
  have "calculateBalance ts
        = foldl js_add (Fin (of_int 0))
            (map (\<lambda>t. if type t = ''income'' then amount t else js_neg (amount t)) ts)"
    unfolding calculateBalance_def js_sub_def
    by (simp add: foldl_map if_distrib [of "js_add _"] cong: if_cong)
  also have "\<dots> = Fin (of_int (0 + sum_list (map signed_units ts)))"
  proof -
    have "\<bar>0::int\<bar> + sum_list (map abs (map signed_units ts)) \<le> 2 ^ 53"
      unfolding a using b by simp
    then show ?thesis unfolding m by (rule foldl_js_add_exact)
  qed
  finally show ?thesis by simp
qed

lemma sum_list_filter_le:
  "\<forall>t\<in>set ts. 0 \<le> f t \<Longrightarrow> sum_list (map f (filter P ts)) \<le> (sum_list (map f ts) :: int)"
  by (induction ts) auto

lemma total_exact:
  assumes w: "\<forall>t\<in>set ts. whole (amount t)"
      and b: "sum_list (map (\<lambda>t. units (amount t)) ts) \<le> 2 ^ 53"
  shows "total ty ts
         = Fin (of_int (sum_list (map (\<lambda>t. units (amount t)) (filter (\<lambda>t. type t = ty) ts))))"
proof -
  let ?fs = "filter (\<lambda>t. type t = ty) ts"
  let ?u = "\<lambda>t. units (amount t)"
  have m: "map amount ?fs = map (\<lambda>n. Fin (of_int n)) (map ?u ?fs)"
    using w by (auto dest: whole_Fin)
  have a: "map abs (map ?u ?fs) = map ?u ?fs"
    using w by (auto simp: whole_units_nonneg)
  have le: "sum_list (map ?u ?fs) \<le> 2 ^ 53"
    using sum_list_filter_le [of ts ?u "\<lambda>t. type t = ty"] w b
    by (auto simp: whole_units_nonneg)
  have "total ty ts = foldl js_add (Fin (of_int 0)) (map amount ?fs)"
    unfolding total_def by (simp add: foldl_map)
  also have "\<dots> = Fin (of_int (0 + sum_list (map ?u ?fs)))"
  proof -
    have "\<bar>0::int\<bar> + sum_list (map abs (map ?u ?fs)) \<le> 2 ^ 53"
      unfolding a using le by simp
    then show ?thesis unfolding m by (rule foldl_js_add_exact)
  qed
  finally show ?thesis by simp
qed

lemma signed_units_split:
  "\<forall>t\<in>set ts. type t = ''income'' \<or> type t = ''expense'' \<Longrightarrow>
   sum_list (map signed_units ts)
   = sum_list (map (\<lambda>t. units (amount t)) (filter (\<lambda>t. type t = ''income'') ts))
     - sum_list (map (\<lambda>t. units (amount t)) (filter (\<lambda>t. type t = ''expense'') ts))"
  by (induction ts) (auto simp: signed_units_def)

lemma sum_list_filter_nonneg:
  "\<forall>t\<in>set ts. 0 \<le> f t \<Longrightarrow> 0 \<le> (sum_list (map f (filter P ts)) :: int)"
  by (induction ts) auto

text \<open>On a store whose types are strings and whose amounts are Numbers, the balance and summary
  routes of the service compute what the functions of the command line do.\<close>

lemma sum_amounts_typed:
  "\<forall>t\<in>set ts. typed t \<Longrightarrow>
   foldl (\<lambda>sum t. case (sum, numeric_operand (t ''amount'')) of
                       (Some s, Some a) \<Rightarrow> Some (js_add s a)
                     | _ \<Rightarrow> None) (Some acc) ts
   = Some (foldl (\<lambda>sum t. js_add sum (amount t)) acc (map as_transaction ts))"
  by (induction ts arbitrary: acc) (auto simp: typed_def as_transaction_def)

lemma filter_typed:
  "\<forall>t\<in>set ts. typed t \<Longrightarrow>
   map as_transaction (filter (\<lambda>t. t ''type'' = Some (JStr ty)) ts)
   = filter (\<lambda>t. type t = ty) (map as_transaction ts)"
  by (induction ts) (auto simp: typed_def as_transaction_def)

lemma sum_amounts_total:
  assumes "\<forall>t\<in>set ts. typed t"
  shows "sum_amounts (filter (\<lambda>t. t ''type'' = Some (JStr ty)) ts)
         = Some (total ty (map as_transaction ts))"
proof -
  have "\<forall>t\<in>set (filter (\<lambda>t. t ''type'' = Some (JStr ty)) ts). typed t"
    using assms by simp
  then show ?thesis
    unfolding sum_amounts_def total_def
    by (simp only: sum_amounts_typed filter_typed [OF assms])
qed

lemma get_balance_typed:
  "\<forall>t\<in>set ts. typed t \<Longrightarrow>
   foldl (\<lambda>balance t. case (balance, numeric_operand (t ''amount'')) of
                           (Some b, Some a) \<Rightarrow>
                             Some (if t ''type'' = Some (JStr ''income'') then js_add b a
                                   else js_sub b a)
                         | _ \<Rightarrow> None) (Some acc) ts
   = Some (foldl (\<lambda>balance transaction.
              if type transaction = ''income'' then js_add balance (amount transaction)
              else js_sub balance (amount transaction)) acc (map as_transaction ts))"
  by (induction ts arbitrary: acc) (auto simp: typed_def as_transaction_def)

lemma get_balance_calculateBalance:
  "\<forall>t\<in>set ts. typed t \<Longrightarrow> get_balance ts = Some (calculateBalance (map as_transaction ts))"
  unfolding get_balance_def calculateBalance_def by (simp only: get_balance_typed)

lemma get_summary_totals:
  "\<forall>t\<in>set ts. typed t \<Longrightarrow>
   get_summary ts =
     Some \<lparr>totalIncome = total ''income'' (map as_transaction ts),
           totalExpense = total ''expense'' (map as_transaction ts),
           balance = js_sub (total ''income'' (map as_transaction ts))
                       (total ''expense'' (map as_transaction ts)),
           transactionCount = length ts, currency = ''USD''\<rparr>"
  unfolding get_summary_def by (simp add: sum_amounts_total)

section \<open>Strings\<close>











text \<open>An amount is accepted exactly when it is greater than zero.\<close>

lemma positive_amount: "js_lt (Fin 0) amnt \<Longrightarrow> \<not> isNaN amnt \<and> \<not> js_le amnt (Fin 0)"
  by (cases amnt) (auto simp: isNaN_def js_le_def)

lemma other_amount: "\<not> js_lt (Fin 0) amnt \<Longrightarrow> isNaN amnt \<or> js_le amnt (Fin 0)"
  by (cases amnt) (auto simp: isNaN_def js_le_def)

lemma toString_nonempty: "toString n \<noteq> []"
  by (subst toString.simps) simp

lemma digit_inj: "a < 10 \<Longrightarrow> b < 10 \<Longrightarrow> digit a = digit b \<Longrightarrow> a = b"
proof -
  assume a: "a < 10" and b: "b < 10" and e: "digit a = digit b"
  have d: "distinct ''0123456789''" by simp
  have "a < length ''0123456789''" "b < length ''0123456789''" using a b by simp_all
  then show "a = b" using e d unfolding digit_def by (simp only: nth_eq_iff_index_eq)
qed

lemma toString_inj: "toString m = toString n \<Longrightarrow> m = n"
proof (induction m arbitrary: n rule: toString.induct)
  case (1 m)
  show ?case
  proof (cases "m < 10")
    case True
    then have m1: "toString m = [digit m]" by (subst toString.simps) simp
    show ?thesis
    proof (cases "n < 10")
      case n: True
      then have "toString n = [digit n]" by (subst toString.simps) simp
      then show ?thesis using m1 "1.prems" True n digit_inj by simp
    next
      case n: False
      then have "toString n = toString (n div 10) @ [digit (n mod 10)]"
        by (subst toString.simps) simp
      then have "toString (n div 10) = []" using m1 "1.prems" by simp
      then show ?thesis using toString_nonempty by blast
    qed
  next
    case False
    then have m2: "toString m = toString (m div 10) @ [digit (m mod 10)]"
      by (subst toString.simps) simp
    show ?thesis
    proof (cases "n < 10")
      case n: True
      then have "toString n = [digit n]" by (subst toString.simps) simp
      then have "toString (m div 10) = []" using m2 "1.prems" by simp
      then show ?thesis using toString_nonempty by blast
    next
      case n: False
      then have "toString n = toString (n div 10) @ [digit (n mod 10)]"
        by (subst toString.simps) simp
      then have e: "toString (m div 10) = toString (n div 10)" "digit (m mod 10) = digit (n mod 10)"
        using m2 "1.prems" by simp_all
      from e(1) have "m div 10 = n div 10" using "1.IH" [OF False] by blast
      moreover from e(2) have "m mod 10 = n mod 10" using digit_inj [of "m mod 10" "n mod 10"] by simp
      ultimately show ?thesis by (metis div_mult_mod_eq)
    qed
  qed
qed

section \<open>Arrays\<close>

lemma findIndex_none: "\<forall>x\<in>set xs. \<not> p x \<Longrightarrow> findIndex p xs = - 1"
  by (induction xs) auto

lemma findIndex_nonneg: "findIndex p xs = - 1 \<or> 0 \<le> findIndex p xs"
  by (induction xs) (auto simp: Let_def)

lemma findIndex_first:
  "\<forall>x\<in>set pre. \<not> p x \<Longrightarrow> p r \<Longrightarrow> findIndex p (pre @ r # post) = int (length pre)"
proof (induction pre)
  case Nil
  then show ?case by simp
next
  case (Cons a pre)
  then have "findIndex p (pre @ r # post) = int (length pre)" by simp
  then show ?case using Cons.prems by (simp add: Let_def)
qed

lemma findIndex_cases:
  obtains (absent) "\<forall>x\<in>set xs. \<not> p x" "findIndex p xs = - 1"
  | (present) pre r post where "xs = pre @ r # post" "\<forall>x\<in>set pre. \<not> p x" "p r"
      "findIndex p xs = int (length pre)"
proof (cases "\<exists>x\<in>set xs. p x")
  case True
  then obtain pre r post where "xs = pre @ r # post" "p r" "\<forall>x\<in>set pre. \<not> p x"
    using split_list_first_prop [of xs p] by blast
  then show ?thesis using present findIndex_first [of pre p r post] by blast
next
  case False
  then show ?thesis using absent findIndex_none [of xs p] by blast
qed

lemma splice_at:
  "splice (Fin (of_int (int (length pre)))) (pre @ r # post) = ([r], pre @ post)"
  by (simp add: splice_def trunc_int_def Let_def)

lemma trunc_int_of_int: "trunc_int (of_int k) = k"
  by (simp add: trunc_int_def)

lemma slice_neg_of_int:
  "slice (js_neg (Fin (of_int n))) xs =
     (if 0 < n then drop (length xs - nat n) xs else drop (nat (- n)) xs)"
proof -
  have "js_neg (Fin (of_int n)) = Fin (of_int (- n))" by simp
  moreover have "drop (nat (min (- n) (int (length xs)))) xs = drop (nat (- n)) xs"
    by (cases "- n \<le> int (length xs)") (simp_all add: min_def)
  moreover have "0 < n \<Longrightarrow> nat (max (int (length xs) - n) 0) = length xs - nat n"
    by (simp add: max_def nat_diff_distrib')
  ultimately show ?thesis
    by (simp only: slice_def relative_index.simps trunc_int_of_int Let_def) auto
qed

lemma subseq_distinct: "subseq xs ys \<Longrightarrow> distinct ys \<Longrightarrow> distinct xs"
  using subseqs_distinctD [of xs ys] by simp

lemma subseq_set: "subseq xs ys \<Longrightarrow> set xs \<subseteq> set ys"
  by (induction rule: list_emb.induct) auto

section \<open>The ids in the store of the service\<close>

lemma issued_ids_Cons: "issued_ids (r # rs) = issued_ids [r] @ issued_ids rs"
  by (cases r) (simp_all add: issued_ids_def)

lemma handle_ids:
  assumes "\<not> carries_id r"
  shows "subseq (ids (handle r ts)) (ids ts @ issued_ids [r])"
proof (cases r)
  case (POST now b)
  then show ?thesis by (simp add: post_transaction_def ids_def issued_ids_def Let_def)
next
  case (PUT i b)
  with assms have nb: "b ''id'' = None" by simp
  show ?thesis
  proof (cases "(\<lambda>t. t ''id'' = Some (JStr i))" ts rule: findIndex_cases)
    case absent
    then show ?thesis using PUT by (simp add: put_transaction_def ids_def issued_ids_def)
  next
    case (present pre x post)
    then have "ids (handle r ts) = ids ts"
      using PUT nb by (simp add: put_transaction_def ids_def Let_def map_add_def)
    then show ?thesis using PUT by (simp add: issued_ids_def)
  qed
next
  case (DELETE i)
  show ?thesis
  proof (cases "(\<lambda>t. t ''id'' = Some (JStr i))" ts rule: findIndex_cases)
    case absent
    then show ?thesis using DELETE by (simp add: delete_transaction_def ids_def issued_ids_def)
  next
    case (present pre x post)
    then have "handle r ts = pre @ post"
      using DELETE splice_at [of pre x post] by (simp add: delete_transaction_def)
    moreover have "subseq (ids pre @ ids post) (ids pre @ ids (x # post))"
      unfolding subseq_append' by (simp add: ids_def list_emb_Cons)
    ultimately show ?thesis using DELETE present(1) by (simp add: issued_ids_def ids_def)
  qed
qed

lemma serve_ids:
  "\<forall>r\<in>set rs. \<not> carries_id r \<Longrightarrow> subseq (ids (serve rs ts)) (ids ts @ issued_ids rs)"
proof (induction rs arbitrary: ts)
  case Nil
  then show ?case by (simp add: serve_def issued_ids_def)
next
  case (Cons r rs)
  have "subseq (ids (serve rs (handle r ts))) (ids (handle r ts) @ issued_ids rs)"
    using Cons by simp
  moreover have "subseq (ids (handle r ts) @ issued_ids rs) ((ids ts @ issued_ids [r]) @ issued_ids rs)"
    using handle_ids [of r ts] Cons.prems by (intro list_emb_append_mono) simp_all
  ultimately have "subseq (ids (serve rs (handle r ts))) ((ids ts @ issued_ids [r]) @ issued_ids rs)"
    by (rule subseq_order.trans)
  then show ?case using issued_ids_Cons [of r rs] by (simp add: serve_def)
qed

lemma issued_ids_distinct:
  assumes "sorted_wrt (<) (post_times rs)"
  shows "distinct (issued_ids rs)"
proof -
  have "distinct (post_times rs)" using assms strict_sorted_iff by blast
  moreover have "inj_on (\<lambda>now. Some (JStr (toString now))) (set (post_times rs))"
    by (rule inj_onI) (simp add: toString_inj)
  ultimately show ?thesis unfolding issued_ids_def by (simp add: distinct_map)
qed

section \<open>The balance and the totals\<close>

lemma calculateBalance_totals_whole:
  assumes ty: "\<forall>t\<in>set ts. type t = ''income'' \<or> type t = ''expense''"
      and w: "\<forall>t\<in>set ts. whole (amount t)"
      and b: "sum_list (map (\<lambda>t. units (amount t)) ts) \<le> 2 ^ 53"
  shows "calculateBalance ts = js_sub (total ''income'' ts) (total ''expense'' ts)"
proof -
  let ?u = "\<lambda>t. units (amount t)"
  let ?i = "sum_list (map ?u (filter (\<lambda>t. type t = ''income'') ts))"
  let ?e = "sum_list (map ?u (filter (\<lambda>t. type t = ''expense'') ts))"
  have nn: "\<forall>t\<in>set ts. 0 \<le> ?u t" using w by (auto simp: whole_units_nonneg)
  have "0 \<le> ?i" "0 \<le> ?e" "?i \<le> 2 ^ 53" "?e \<le> 2 ^ 53"
    using sum_list_filter_nonneg [OF nn] sum_list_filter_le [OF nn] b
    by (auto intro: order_trans)
  then have "\<bar>?i - ?e\<bar> \<le> 2 ^ 53" by linarith
  then have "round64 (of_int ?i - of_int ?e) = Fin (of_int ?i - of_int ?e)"
    using round64_of_int [of "?i - ?e"] by simp
  then have "js_sub (total ''income'' ts) (total ''expense'' ts) = Fin (of_int (?i - ?e))"
    by (simp add: total_exact [OF w b] js_sub_def)
  then show ?thesis
    by (simp add: calculateBalance_exact [OF w b] signed_units_split [OF ty])
qed

text \<open>
  C1 (as amended). For every sequence of transactions in which each type is income or
  expense, each amount is a whole number and the amounts sum to at most \<open>2\<^sup>5\<^sup>3\<close>, the
  balance folded by \<^verbatim>\<open>calculateBalance\<close> equals the income total minus the expense
  total. On such a store of the service, the summary reports as balance the difference
  of its two totals, and this is the balance the balance route folds.
\<close>

theorem balance_is_income_minus_expense_whole:
  "((\<forall>t\<in>set ts. type t = ''income'' \<or> type t = ''expense'') \<and>
    (\<forall>t\<in>set ts. whole (amount t)) \<and>
    sum_list (map (\<lambda>t. units (amount t)) ts) \<le> 2 ^ 53
    \<longrightarrow> calculateBalance ts = js_sub (total ''income'' ts) (total ''expense'' ts)) \<and>
   ((\<forall>t\<in>set os. typed t) \<and>
    (\<forall>t\<in>set os. t ''type'' = Some (JStr ''income'') \<or> t ''type'' = Some (JStr ''expense'')) \<and>
    (\<forall>t\<in>set os. whole (amount (as_transaction t))) \<and>
    sum_list (map (\<lambda>t. units (amount (as_transaction t))) os) \<le> 2 ^ 53
    \<longrightarrow> (\<exists>s. get_summary os = Some s \<and>
              balance s = js_sub (totalIncome s) (totalExpense s) \<and>
              get_balance os = Some (balance s)))"
proof (intro conjI impI)
  assume "(\<forall>t\<in>set ts. type t = ''income'' \<or> type t = ''expense'') \<and>
    (\<forall>t\<in>set ts. whole (amount t)) \<and>
    sum_list (map (\<lambda>t. units (amount t)) ts) \<le> 2 ^ 53"
  then show "calculateBalance ts = js_sub (total ''income'' ts) (total ''expense'' ts)"
    using calculateBalance_totals_whole [of ts] by blast
next
  assume h: "(\<forall>t\<in>set os. typed t) \<and>
    (\<forall>t\<in>set os. t ''type'' = Some (JStr ''income'') \<or> t ''type'' = Some (JStr ''expense'')) \<and>
    (\<forall>t\<in>set os. whole (amount (as_transaction t))) \<and>
    sum_list (map (\<lambda>t. units (amount (as_transaction t))) os) \<le> 2 ^ 53"
  let ?ts = "map as_transaction os"
  have ty: "\<forall>t\<in>set ?ts. type t = ''income'' \<or> type t = ''expense''"
    using h by (auto simp: as_transaction_def)
  have w: "\<forall>t\<in>set ?ts. whole (amount t)"
    using h by simp
  have b: "sum_list (map (\<lambda>t. units (amount t)) ?ts) \<le> 2 ^ 53"
    using h by (simp add: comp_def)
  have eq: "calculateBalance ?ts = js_sub (total ''income'' ?ts) (total ''expense'' ?ts)"
    using ty w b by (rule calculateBalance_totals_whole)
  have typed: "\<forall>t\<in>set os. typed t" using h by blast
  show "\<exists>s. get_summary os = Some s \<and>
              balance s = js_sub (totalIncome s) (totalExpense s) \<and>
              get_balance os = Some (balance s)"
    using get_summary_totals [OF typed] get_balance_calculateBalance [OF typed] eq by simp
qed

theorem balance_is_income_minus_expense_whole_witness:
  "list_all (\<lambda>t. type t = ''income'' \<or> type t = ''expense'') salary_rent \<and>
   list_all (\<lambda>t. whole (amount t)) salary_rent \<and>
   sum_list (map (\<lambda>t. units (amount t)) salary_rent) \<le> 2 ^ 53 \<and>
   calculateBalance salary_rent
     = js_sub (total ''income'' salary_rent) (total ''expense'' salary_rent) \<and>
   list_all typed [salary, rent] \<and>
   map (\<lambda>t. t ''type'') [salary, rent] = [Some (JStr ''income''), Some (JStr ''expense'')] \<and>
   map (\<lambda>t. amount (as_transaction t)) [salary, rent] = [Fin 1000, Fin 400] \<and>
   (\<exists>s. get_summary [salary, rent] = Some s \<and>
        balance s = js_sub (totalIncome s) (totalExpense s) \<and>
        get_balance [salary, rent] = Some (balance s))"
proof -
  have h1: "(\<forall>t\<in>set salary_rent. type t = ''income'' \<or> type t = ''expense'') \<and>
    (\<forall>t\<in>set salary_rent. whole (amount t)) \<and>
    sum_list (map (\<lambda>t. units (amount t)) salary_rent) \<le> 2 ^ 53"
    by (simp add: salary_rent_def)
  have ty: "map (\<lambda>t. t ''type'') [salary, rent] = [Some (JStr ''income''), Some (JStr ''expense'')]"
    by (simp add: salary_def rent_def)
  have am: "map (\<lambda>t. amount (as_transaction t)) [salary, rent] = [Fin 1000, Fin 400]"
    by (simp add: salary_def rent_def as_transaction_def)
  have td: "\<forall>t\<in>set [salary, rent]. typed t"
    by (simp add: salary_def rent_def typed_def)
  have h2: "(\<forall>t\<in>set [salary, rent]. typed t) \<and>
    (\<forall>t\<in>set [salary, rent]. t ''type'' = Some (JStr ''income'') \<or> t ''type'' = Some (JStr ''expense'')) \<and>
    (\<forall>t\<in>set [salary, rent]. whole (amount (as_transaction t))) \<and>
    sum_list (map (\<lambda>t. units (amount (as_transaction t))) [salary, rent]) \<le> 2 ^ 53"
    using td ty am by simp
  note t = balance_is_income_minus_expense_whole [of salary_rent "[salary, rent]"]
  have c1: "calculateBalance salary_rent
     = js_sub (total ''income'' salary_rent) (total ''expense'' salary_rent)"
    using t [THEN conjunct1, THEN mp, OF h1] .
  have c2: "\<exists>s. get_summary [salary, rent] = Some s \<and>
        balance s = js_sub (totalIncome s) (totalExpense s) \<and>
        get_balance [salary, rent] = Some (balance s)"
    using t [THEN conjunct2, THEN mp, OF h2] .
  have l: "list_all (\<lambda>t. type t = ''income'' \<or> type t = ''expense'') salary_rent"
    "list_all (\<lambda>t. whole (amount t)) salary_rent"
    "sum_list (map (\<lambda>t. units (amount t)) salary_rent) \<le> 2 ^ 53"
    "list_all typed [salary, rent]"
    using h1 td by (simp_all only: list_all_iff) simp_all
  from l c1 ty am c2 show ?thesis by (intro conjI)
qed

text \<open>
  With the amounts 0.1 (income), 0.3 (expense) and 0.2 (income) the additions round:
  the fold gives \<open>2\<^sup>-\<^sup>5\<^sup>5\<close>, the difference of the totals \<open>2\<^sup>-\<^sup>5\<^sup>4\<close>.
\<close>

theorem balance_differs_from_totals_on_tenths:
  "map type tenths = [''income'', ''expense'', ''income''] \<and>
   calculateBalance tenths = Fin (1 / 2 ^ 55) \<and>
   js_sub (total ''income'' tenths) (total ''expense'' tenths) = Fin (1 / 2 ^ 54) \<and>
   calculateBalance tenths \<noteq> js_sub (total ''income'' tenths) (total ''expense'' tenths)"
proof -
  have t: "map type tenths = [''income'', ''expense'', ''income'']"
    by (simp add: tenths_def)
  have b: "calculateBalance tenths = Fin (1 / 2 ^ 55)"
    by code_simp
  have d: "js_sub (total ''income'' tenths) (total ''expense'' tenths) = Fin (1 / 2 ^ 54)"
    by code_simp
  show ?thesis unfolding b d using t by simp
qed

section \<open>Validation of the amount\<close>

text \<open>
  C2 (as amended). For every snapshot and every add request of the command line whose
  amount is \<open>NaN\<close>, zero or negative, the request is refused with the message
  \<^verbatim>\<open>Invalid amount. Please enter a positive number.\<close> and the snapshot is unchanged: no
  transaction is appended.
\<close>

theorem addTransaction_rejects:
  assumes "amnt = NaN \<or> amnt = NegInf \<or> (\<exists>q. amnt = Fin q \<and> q \<le> 0)"
  shows "addTransaction ty descr amnt now file = (file, Invalid_amount)"
  using assms by (auto simp: addTransaction_def isNaN_def js_le_def)

theorem addTransaction_rejects_witness:
  "addTransaction ''expense'' (utf16 ''Rent'') (Fin (- 5)) 1700000000000 salary_rent
     = (salary_rent, Invalid_amount)"
  using addTransaction_rejects [of "Fin (- 5)" "''expense''" "utf16 ''Rent''" 1700000000000
      salary_rent]
  by simp

text \<open>The service validates nothing: an update with the amount \<open>-5\<close> is answered with
  \<^verbatim>\<open>200\<close> and the amount of the record is overwritten.\<close>

theorem put_transaction_accepts_negative_amount:
  "rent ''amount'' = Some (JNum (Fin 400)) \<and>
   status (snd (put_transaction ''1'' [''amount'' \<mapsto> JNum (Fin (- 5))] [rent])) = 200 \<and>
   map (\<lambda>t. t ''amount'') (fst (put_transaction ''1'' [''amount'' \<mapsto> JNum (Fin (- 5))] [rent]))
     = [Some (JNum (Fin (- 5)))] \<and>
   fst (put_transaction ''1'' [''amount'' \<mapsto> JNum (Fin (- 5))] [rent]) \<noteq> [rent]"
proof -
  have a: "rent ''amount'' = Some (JNum (Fin 400))" by (simp add: rent_def)
  have s: "status (snd (put_transaction ''1'' [''amount'' \<mapsto> JNum (Fin (- 5))] [rent])) = 200"
    by (simp add: put_transaction_def rent_def Let_def)
  have m: "map (\<lambda>t. t ''amount'') (fst (put_transaction ''1'' [''amount'' \<mapsto> JNum (Fin (- 5))] [rent]))
     = [Some (JNum (Fin (- 5)))]"
    by (simp add: put_transaction_def rent_def Let_def)
  have "map (\<lambda>t. t ''amount'') [rent] \<noteq> [Some (JNum (Fin (- 5)))]"
    using a by simp
  with m have n: "fst (put_transaction ''1'' [''amount'' \<mapsto> JNum (Fin (- 5))] [rent]) \<noteq> [rent]"
    by metis
  from a s m n show ?thesis by (intro conjI)
qed

section \<open>Deletion by id\<close>

text \<open>
  C3 (as amended). For every snapshot and every id that no transaction of it has,
  \<^verbatim>\<open>DELETE\<close> answers \<^verbatim>\<open>404\<close> and the snapshot is unchanged; for an id that occurs, the
  first transaction with this id is removed, the others stay in their order, and the
  answer is \<^verbatim>\<open>204\<close> with an empty body: the removed record is not returned.
\<close>

theorem delete_transaction_effect:
  "((\<forall>t\<in>set ts. t ''id'' \<noteq> Some (JStr i)) \<longrightarrow> delete_transaction i ts = (ts, not_found)) \<and>
   ((\<forall>t\<in>set pre. t ''id'' \<noteq> Some (JStr i)) \<and> r ''id'' = Some (JStr i) \<longrightarrow>
      delete_transaction i (pre @ r # post) = (pre @ post, \<lparr>status = 204, body = None\<rparr>))"
proof (intro conjI impI)
  assume "\<forall>t\<in>set ts. t ''id'' \<noteq> Some (JStr i)"
  then show "delete_transaction i ts = (ts, not_found)"
    by (simp add: delete_transaction_def findIndex_none)
next
  assume a: "(\<forall>t\<in>set pre. t ''id'' \<noteq> Some (JStr i)) \<and> r ''id'' = Some (JStr i)"
  then have "findIndex (\<lambda>t. t ''id'' = Some (JStr i)) (pre @ r # post) = int (length pre)"
    using findIndex_first [of pre "\<lambda>t. t ''id'' = Some (JStr i)" r post] by simp
  then show "delete_transaction i (pre @ r # post) = (pre @ post, \<lparr>status = 204, body = None\<rparr>)"
    using splice_at [of pre r post] by (simp add: delete_transaction_def)
qed

theorem delete_transaction_effect_witness:
  "list_all (\<lambda>t. t ''id'' \<noteq> Some (JStr ''3'')) [rent, salary] \<and>
   delete_transaction ''3'' [rent, salary] = ([rent, salary], not_found) \<and>
   salary ''id'' = Some (JStr ''2'') \<and>
   delete_transaction ''2'' [rent, salary, rent] = ([rent, rent], \<lparr>status = 204, body = None\<rparr>)"
proof -
  have a: "\<forall>t\<in>set [rent, salary]. t ''id'' \<noteq> Some (JStr ''3'')"
    by (simp add: rent_def salary_def)
  have s: "salary ''id'' = Some (JStr ''2'')"
    by (simp add: salary_def)
  have r: "rent ''id'' \<noteq> Some (JStr ''2'')"
    by (simp add: rent_def)
  have b: "(\<forall>t\<in>set [rent]. t ''id'' \<noteq> Some (JStr ''2'')) \<and> salary ''id'' = Some (JStr ''2'')"
    using s r by simp
  have t1: "delete_transaction ''3'' [rent, salary] = ([rent, salary], not_found)"
    using delete_transaction_effect [of "[rent, salary]" "''3''", THEN conjunct1, THEN mp, OF a] .
  have t2: "delete_transaction ''2'' ([rent] @ salary # [rent])
      = ([rent] @ [rent], \<lparr>status = 204, body = None\<rparr>)"
    using delete_transaction_effect [of _ "''2''" "[rent]" salary "[rent]", THEN conjunct2,
        THEN mp, OF b] .
  have l: "list_all (\<lambda>t. t ''id'' \<noteq> Some (JStr ''3'')) [rent, salary]"
    using a by (simp only: list_all_iff)
  from t2 have t2': "delete_transaction ''2'' [rent, salary, rent]
      = ([rent, rent], \<lparr>status = 204, body = None\<rparr>)" by simp
  from l t1 s t2' show ?thesis by (intro conjI)
qed

theorem delete_transaction_returns_nothing:
  "rent ''id'' = Some (JStr ''1'') \<and>
   delete_transaction ''1'' [rent, salary] = ([salary], \<lparr>status = 204, body = None\<rparr>) \<and>
   body (snd (delete_transaction ''1'' [rent, salary])) \<noteq> Some (JObj rent)"
  by (simp add: delete_transaction_def rent_def salary_def splice_def trunc_int_def)

section \<open>Update by id\<close>

text \<open>
  C4 (as amended). For every snapshot containing a transaction with the given id and
  every request body, \<^verbatim>\<open>PUT\<close> replaces the first such transaction by the old record
  overridden with every property of the body, whatever its name; the properties the
  body does not have keep their values, so the id and \<^verbatim>\<open>createdAt\<close> are unchanged when
  the body has neither; all other records of the snapshot are unchanged.
\<close>

theorem put_transaction_merges:
  assumes "\<forall>t\<in>set pre. t ''id'' \<noteq> Some (JStr i)" and "r ''id'' = Some (JStr i)"
  shows "put_transaction i upd (pre @ r # post)
           = (pre @ (r ++ upd) # post, \<lparr>status = 200, body = Some (JObj (r ++ upd))\<rparr>) \<and>
         (\<forall>k. (r ++ upd) k = (case upd k of Some v \<Rightarrow> Some v | None \<Rightarrow> r k)) \<and>
         (upd ''id'' = None \<longrightarrow> (r ++ upd) ''id'' = r ''id'') \<and>
         (upd ''createdAt'' = None \<longrightarrow> (r ++ upd) ''createdAt'' = r ''createdAt'')"
proof -
  have "findIndex (\<lambda>t. t ''id'' = Some (JStr i)) (pre @ r # post) = int (length pre)"
    using assms findIndex_first [of pre "\<lambda>t. t ''id'' = Some (JStr i)" r post] by simp
  then have "put_transaction i upd (pre @ r # post)
           = (pre @ (r ++ upd) # post, \<lparr>status = 200, body = Some (JObj (r ++ upd))\<rparr>)"
    by (simp add: put_transaction_def Let_def)
  moreover have "\<forall>k. (r ++ upd) k = (case upd k of Some v \<Rightarrow> Some v | None \<Rightarrow> r k)"
    by (simp add: map_add_def split: option.split)
  ultimately show ?thesis by (simp add: map_add_def)
qed

theorem put_transaction_merges_witness:
  "list_all (\<lambda>t. t ''id'' \<noteq> Some (JStr ''2'')) [rent] \<and> salary ''id'' = Some (JStr ''2'') \<and>
   fst (put_transaction ''2'' [''amount'' \<mapsto> JNum (Fin 1200)] [rent, salary, rent])
     = [rent, salary(''amount'' \<mapsto> JNum (Fin 1200)), rent] \<and>
   (salary(''amount'' \<mapsto> JNum (Fin 1200))) ''id'' = salary ''id''"
proof -
  have a: "\<forall>t\<in>set [rent]. t ''id'' \<noteq> Some (JStr ''2'')"
    by (simp add: rent_def)
  have s: "salary ''id'' = Some (JStr ''2'')"
    by (simp add: salary_def)
  have m: "salary ++ [''amount'' \<mapsto> JNum (Fin 1200)] = salary(''amount'' \<mapsto> JNum (Fin 1200))"
    by simp
  have "put_transaction ''2'' [''amount'' \<mapsto> JNum (Fin 1200)] ([rent] @ salary # [rent])
      = ([rent] @ (salary ++ [''amount'' \<mapsto> JNum (Fin 1200)]) # [rent],
         \<lparr>status = 200, body = Some (JObj (salary ++ [''amount'' \<mapsto> JNum (Fin 1200)]))\<rparr>)"
    using put_transaction_merges [of "[rent]" "''2''" salary
        "[''amount'' \<mapsto> JNum (Fin 1200)]" "[rent]", OF a s, THEN conjunct1] .
  then have p: "fst (put_transaction ''2'' [''amount'' \<mapsto> JNum (Fin 1200)] [rent, salary, rent])
     = [rent, salary(''amount'' \<mapsto> JNum (Fin 1200)), rent]"
    unfolding m by simp
  have l: "list_all (\<lambda>t. t ''id'' \<noteq> Some (JStr ''2'')) [rent]"
    using a by (simp only: list_all_iff)
  have k: "(salary(''amount'' \<mapsto> JNum (Fin 1200))) ''id'' = salary ''id''"
    by simp
  from l s p k show ?thesis by (intro conjI)
qed

text \<open>A body with the properties \<^verbatim>\<open>id\<close> and \<^verbatim>\<open>createdAt\<close> overwrites both.\<close>

theorem put_transaction_overwrites_id:
  "rent ''id'' = Some (JStr ''1'') \<and>
   status (snd (put_transaction ''1'' [''id'' \<mapsto> JStr ''2'', ''createdAt'' \<mapsto> JStr ''2030-01-01''] [rent])) = 200 \<and>
   map (\<lambda>t. t ''id'') (fst (put_transaction ''1'' [''id'' \<mapsto> JStr ''2'', ''createdAt'' \<mapsto> JStr ''2030-01-01''] [rent]))
     = [Some (JStr ''2'')] \<and>
   map (\<lambda>t. t ''createdAt'') (fst (put_transaction ''1'' [''id'' \<mapsto> JStr ''2'', ''createdAt'' \<mapsto> JStr ''2030-01-01''] [rent]))
     = [Some (JStr ''2030-01-01'')] \<and>
   rent ''createdAt'' = Some (JStr ''2024-01-01'')"
  by (simp add: put_transaction_def rent_def Let_def)

section \<open>Uniqueness of the ids\<close>

text \<open>
  C5 (as amended). The id given by \<^verbatim>\<open>POST\<close> is the decimal rendering of the clock
  reading, with no rule against collisions. For every sequence of add, update and
  delete requests from the empty store in which the clock readings of the adds
  increase strictly and no update carries an id, no two transactions of the resulting
  snapshot share an id, every id in it was issued by an add of the sequence, and the ids
  issued are pairwise distinct, so that none is issued again after a deletion.
\<close>

theorem ids_unique_when_clock_advances:
  assumes "sorted_wrt (<) (post_times rs)" and "\<forall>r\<in>set rs. \<not> carries_id r"
  shows "distinct (map (\<lambda>t. t ''id'') (serve rs [])) \<and>
         set (map (\<lambda>t. t ''id'') (serve rs [])) \<subseteq> set (issued_ids rs) \<and>
         distinct (issued_ids rs)"
proof -
  have s: "subseq (ids (serve rs [])) (issued_ids rs)"
    using serve_ids [OF assms(2), of "[]"] by (simp add: ids_def)
  have d: "distinct (issued_ids rs)" using assms(1) by (rule issued_ids_distinct)
  have "set (ids (serve rs [])) \<subseteq> set (issued_ids rs)"
    using s by (rule subseq_set)
  then show ?thesis using subseq_distinct [OF s d] d by (simp add: ids_def)
qed

theorem ids_unique_when_clock_advances_witness:
  "sorted_wrt (<) (post_times [POST 1 rent, POST 2 salary, PUT ''1'' [''amount'' \<mapsto> JNum (Fin 5)],
       DELETE ''1'', POST 3 rent]) \<and>
   list_all (\<lambda>r. \<not> carries_id r) [POST 1 rent, POST 2 salary, PUT ''1'' [''amount'' \<mapsto> JNum (Fin 5)],
       DELETE ''1'', POST 3 rent] \<and>
   distinct (map (\<lambda>t. t ''id'') (serve [POST 1 rent, POST 2 salary,
       PUT ''1'' [''amount'' \<mapsto> JNum (Fin 5)], DELETE ''1'', POST 3 rent] []))"
proof -
  let ?rs = "[POST 1 rent, POST 2 salary, PUT ''1'' [''amount'' \<mapsto> JNum (Fin 5)],
       DELETE ''1'', POST 3 rent]"
  have a: "sorted_wrt (<) (post_times ?rs)" by simp
  have b: "\<forall>r\<in>set ?rs. \<not> carries_id r" by simp
  have l: "list_all (\<lambda>r. \<not> carries_id r) ?rs" by simp
  from ids_unique_when_clock_advances [OF a b, THEN conjunct1] a l show ?thesis
    by (intro conjI)
qed

text \<open>Two adds at one clock reading receive the same id.\<close>

theorem same_clock_reading_same_id:
  "map (\<lambda>t. t ''id'') (serve [POST 1700000000000 rent, POST 1700000000000 salary] [])
     = [Some (JStr ''1700000000000''), Some (JStr ''1700000000000'')] \<and>
   \<not> distinct (map (\<lambda>t. t ''id'') (serve [POST 1700000000000 rent, POST 1700000000000 salary] []))"
  by (simp add: serve_def post_transaction_def Let_def toString.simps digit_def)

section \<open>The most recent transactions\<close>

text \<open>
  C6 (as amended). For every sequence of transactions \<open>ts\<close> and integer \<open>n\<close>: the route
  returns the last \<open>n\<close> transactions in their order when \<open>n \<ge> 1\<close>, hence all of \<open>ts\<close>
  when \<open>n \<ge> length ts\<close>; the last 10 when the limit is 0, missing or not a number; and
  \<open>ts\<close> without its first \<open>-n\<close> transactions when \<open>n < 0\<close>.
\<close>

theorem recent_effect:
  "(1 \<le> n \<longrightarrow> recent (Fin (of_int n)) ts = drop (length ts - nat n) ts) \<and>
   (int (length ts) \<le> n \<longrightarrow> recent (Fin (of_int n)) ts = ts) \<and>
   recent (Fin 0) ts = drop (length ts - 10) ts \<and>
   recent NaN ts = drop (length ts - 10) ts \<and>
   (n < 0 \<longrightarrow> recent (Fin (of_int n)) ts = drop (nat (- n)) ts)"
proof -
  have ten: "slice (js_neg (Fin 10)) ts = drop (length ts - 10) ts"
    using slice_neg_of_int [of 10 ts] by simp
  have nz: "n \<noteq> 0 \<Longrightarrow> recent (Fin (of_int n)) ts = slice (js_neg (Fin (of_int n))) ts"
    by (simp add: recent_def falsy_def)
  have z: "recent (Fin 0) ts = drop (length ts - 10) ts"
    using ten by (simp add: recent_def falsy_def)
  have nan: "recent NaN ts = drop (length ts - 10) ts"
    using ten by (simp add: recent_def falsy_def)
  have pos: "1 \<le> n \<Longrightarrow> recent (Fin (of_int n)) ts = drop (length ts - nat n) ts"
    using nz slice_neg_of_int [of n ts] by simp
  have neg: "n < 0 \<Longrightarrow> recent (Fin (of_int n)) ts = drop (nat (- n)) ts"
    using nz slice_neg_of_int [of n ts] by simp
  have all: "int (length ts) \<le> n \<Longrightarrow> recent (Fin (of_int n)) ts = ts"
  proof (cases "n = 0")
    case True
    assume "int (length ts) \<le> n"
    with True show ?thesis using z by simp
  next
    case False
    assume "int (length ts) \<le> n"
    with False have "1 \<le> n" "length ts \<le> nat n" by auto
    then show ?thesis using pos by simp
  qed
  from pos all z nan neg show ?thesis by blast
qed

theorem recent_effect_witness:
  "recent (Fin (of_int 2)) [rent, salary, rent] = [salary, rent] \<and>
   recent (Fin (of_int 5)) [rent, salary, rent] = [rent, salary, rent] \<and>
   recent NaN [rent, salary] = [rent, salary] \<and>
   recent (Fin (of_int (- 1))) [rent, salary] = [salary]"
proof -
  have a: "recent (Fin (of_int 2)) [rent, salary, rent] = [salary, rent]"
    using recent_effect [of 2 "[rent, salary, rent]"] by simp
  have b: "recent (Fin (of_int 5)) [rent, salary, rent] = [rent, salary, rent]"
    using recent_effect [of 5 "[rent, salary, rent]"] by simp
  have c: "recent NaN [rent, salary] = [rent, salary]"
    using recent_effect [of 0 "[rent, salary]"] by simp
  have d: "recent (Fin (of_int (- 1))) [rent, salary] = [salary]"
    using recent_effect [of "- 1" "[rent, salary]"] by simp
  from a b c d show ?thesis by (intro conjI)
qed

text \<open>The limit 0 does not give the empty sequence.\<close>

theorem recent_zero_not_empty:
  "recent (Fin 0) [rent] = [rent] \<and> recent (Fin 0) [rent] \<noteq> []"
  by (simp add: recent_def falsy_def slice_def trunc_int_def)

section \<open>Search\<close>




section \<open>The CSV export\<close>

text \<open>
  C8. The description is written between double quotes as it is, a double quote or a
  line break in it included. Whatever the rendering of dates and of Numbers, the ledger
  \<open>one_row\<close> and the ledger \<open>two_rows\<close> are exported to the same text, although they differ
  in the number and in the descriptions of their transactions: no reading of the text
  gives back the transactions of both.
\<close>

theorem exportToCSV_not_injective:
  "exportToCSV d n (one_row d n) = exportToCSV d n two_rows \<and>
   map description (one_row d n) \<noteq> map description two_rows \<and>
   length (one_row d n) \<noteq> length two_rows"
  by (simp add: exportToCSV_def one_row_def two_rows_def csv_row_def utf16_def)

section \<open>An empty description\<close>

text \<open>
  C9 (as amended). For every snapshot, an add request of the command line whose
  description is empty after trimming is accepted when its amount is greater than zero,
  the infinity included: one transaction with the empty description is appended. It is
  refused, and nothing is appended, when its amount is \<open>NaN\<close>, zero or negative.
\<close>

theorem addTransaction_blank:
  assumes "trim descr = []"
  shows "(js_lt (Fin 0) amnt \<longrightarrow>
            addTransaction ty descr amnt now file =
              (file @ [\<lparr>primeId = Fin (of_nat now), description = [], amount = amnt,
                          type = ty\<rparr>],
               Added_successfully)) \<and>
         (\<not> js_lt (Fin 0) amnt \<longrightarrow>
            addTransaction ty descr amnt now file = (file, Invalid_amount))"
  using assms positive_amount [of amnt] other_amount [of amnt]
  by (auto simp: addTransaction_def)

theorem addTransaction_blank_witness:
  "trim [0x00A0, 0x0009, 0x3000] = [] \<and> js_lt (Fin 0) PosInf \<and> \<not> js_lt (Fin 0) (Fin 0) \<and>
   addTransaction ''expense'' [0x00A0, 0x0009, 0x3000] PosInf 5 salary_rent =
     (salary_rent @ [\<lparr>primeId = Fin 5, description = [], amount = PosInf, type = ''expense''\<rparr>],
      Added_successfully) \<and>
   addTransaction ''expense'' [0x00A0, 0x0009, 0x3000] (Fin 0) 5 salary_rent
     = (salary_rent, Invalid_amount)"
proof -
  have t: "trim [0x00A0, 0x0009, 0x3000] = []"
    by (simp add: trim_def is_space_def)
  have p: "js_lt (Fin 0) PosInf" and z: "\<not> js_lt (Fin 0) (Fin 0)"
    by simp_all
  have a: "addTransaction ''expense'' [0x00A0, 0x0009, 0x3000] PosInf 5 salary_rent =
     (salary_rent @ [\<lparr>primeId = Fin 5, description = [], amount = PosInf, type = ''expense''\<rparr>],
      Added_successfully)"
    using addTransaction_blank [OF t, of PosInf "''expense''" 5 salary_rent, THEN conjunct1,
        THEN mp, OF p] by simp
  have r: "addTransaction ''expense'' [0x00A0, 0x0009, 0x3000] (Fin 0) 5 salary_rent
     = (salary_rent, Invalid_amount)"
    using addTransaction_blank [OF t, of "Fin 0" "''expense''" 5 salary_rent, THEN conjunct2,
        THEN mp, OF z] .
  from t p z a r show ?thesis by (intro conjI)
qed

text \<open>The request of the scenario, on the empty ledger.\<close>

theorem addTransaction_accepts_blank_description:
  "trim (utf16 ''  '') = [] \<and>
   addTransaction ''income'' (utf16 ''  '') (Fin 10) 1700000000000 [] =
     ([\<lparr>primeId = Fin 1700000000000, description = [], amount = Fin 10, type = ''income''\<rparr>],
      Added_successfully)"
  by (simp add: addTransaction_def isNaN_def js_le_def trim_def is_space_def utf16_def)

section \<open>Deletion by position with an index that is not a number\<close>

text \<open>
  C10. In the deletion by position, for every non-empty snapshot, the index \<open>NaN\<close> is
  not refused by the bounds check, since both comparisons with \<open>NaN\<close> are false, and
  the first transaction of the snapshot is removed.
\<close>

theorem deleteTransaction_NaN:
  "\<not> js_lt NaN (Fin 1) \<and> \<not> js_lt (Fin (of_nat (length (t # ts)))) NaN \<and>
   deleteTransaction NaN (t # ts) = (ts, Deleted t)"
  by (simp add: deleteTransaction_def splice_def js_sub_def)

theorem deleteTransaction_NaN_witness:
  "deleteTransaction NaN salary_rent =
     ([\<lparr>primeId = Fin 2, description = utf16 ''Rent'', amount = Fin 400, type = ''expense''\<rparr>],
      Deleted \<lparr>primeId = Fin 1, description = utf16 ''Salary'', amount = Fin 1000, type = ''income''\<rparr>)"
  using deleteTransaction_NaN [of "\<lparr>primeId = Fin 1, description = utf16 ''Salary'', amount = Fin 1000, type = ''income''\<rparr>"
    "[\<lparr>primeId = Fin 2, description = utf16 ''Rent'', amount = Fin 400, type = ''expense''\<rparr>]"]
  by (simp add: salary_rent_def)

end
